theory Spec2Isabelle
  imports Main "HOL-Library.Word" "HOL-Library.DAList"
begin

section \<open>Data model\<close>

text \<open>
  The cluster layer of the broker (package \<open>cluster\<close>: \<open>cluster.go\<close> and
  \<open>processor.go\<close>) works on objects that live behind the interfaces \<open>ifs.Server\<close>
  and \<open>ifs.Client\<close>, on the control packets of package \<open>packets\<close> and on the
  settings of package \<open>config\<close>. The functions of the two files are embedded as state
  transformers over one record of the shared state; client objects are reached
  through references into an object store, because the registry, the topic stores
  and the handlers alias them.
\<close>

subsection \<open>Control packets\<close>

text \<open>
  The packet types carry the fields that the two files read or write. A packet made
  by \<open>packets.NewControlPacket\<close> has every field at its zero value.
\<close>

record ConnectPacket =
  ProtocolName :: string
  ProtocolVersion :: "8 word"
  CleanSession :: bool
  ClientIdentifier :: string
  Keepalive :: "16 word"

record ConnackPacket =
  SessionPresent :: bool
  ReturnCode :: "8 word"

record PublishPacket =
  TopicName :: string
  Retain :: bool
  Payload :: "8 word list"

record SubscribePacket =
  sub_MessageID :: "16 word"
  sub_Topics :: "string list"
  sub_Qoss :: "8 word list"

record UnsubscribePacket =
  unsub_MessageID :: "16 word"
  unsub_Topics :: "string list"

datatype ControlPacket =
    Connect ConnectPacket
  | Connack ConnackPacket
  | Publish PublishPacket
  | Puback
  | Pubrec
  | Pubrel
  | Pubcomp
  | Subscribe SubscribePacket
  | Suback "16 word"
  | Unsubscribe UnsubscribePacket
  | Unsuback "16 word"
  | Pingreq
  | Pingresp
  | Disconnect

subsection \<open>Connections and clients\<close>

text \<open>
  \<open>config.TypServer\<close> is the role of a link that this node accepted,
  \<open>config.TypClient\<close> the role of a link that this node dialed.
\<close>

datatype Typ = TypServer | TypClient

text \<open>
  A \<open>net.Conn\<close> as the handlers see it: the results of the reads that the
  connection will yield, in order (\<open>None\<close> is a read that returns an error; reading
  past the end of the list is an error as well), and whether a write on it returns
  an error.
\<close>

record Conn =
  conn_reads :: "ControlPacket option list"
  conn_wfail :: bool

text \<open>
  A client object (\<open>*Client\<close>, behind \<open>ifs.Client\<close>). The fields \<open>written\<close> and
  \<open>wire\<close> record what happened on the connection: \<open>written\<close> holds every frame
  handed to \<open>WritePacket\<close>, \<open>wire\<close> those for which the write returned no error.
  \<open>topics\<close> lists the client's topic set without repetition.
\<close>

record Client =
  cid :: string
  ctyp :: Typ
  topics :: "string list"
  reads :: "ControlPacket option list"
  wfail :: bool
  closed :: bool
  written :: "ControlPacket list"
  wire :: "ControlPacket list"

type_synonym cref = nat

subsection \<open>Configuration and server state\<close>

record ClusterNode =
  Name :: string
  Host :: string

text \<open>
  The state behind \<open>ifs.Server\<close> and \<open>config\<close>:
  \<^item> \<open>heap\<close>, \<open>next_ref\<close>: the client objects and the next unused reference;
  \<^item> \<open>Clusters\<close>: the registry \<open>s.Clusters()\<close>, a \<open>sync.Map\<close> from identity to client;
  \<^item> \<open>Subscribers\<close>: what \<open>s.BrokerTopics().Subscribers(topic)\<close> returns;
  \<^item> \<open>LocalTopics\<close>: the local topic store as \<open>s.BrokerTopics().RangeTopics\<close>
    enumerates it, a list of topics with their values in which no topic occurs twice;
  \<^item> \<open>Retains\<close>: the retained-message store of \<open>s.BrokerTopics()\<close>;
  \<^item> \<open>ClusterTopics\<close>: the cluster-subscription registry \<open>s.ClusterTopics()\<close>,
    per topic a map from subscriber identity to subscriber handle;
  \<^item> \<open>PubSent\<close>: the counter \<open>s.State().PubSent\<close>, an \<open>int64\<close>;
  \<^item> \<open>cfg_ClusterName\<close>, \<open>cfg_Clusters\<close>: \<open>config.ClusterName()\<close> and
    \<open>config.Clusters()\<close>;
  \<^item> \<open>spawned\<close>: the goroutines \<open>go c.StartClient(cluster)\<close> started so far, by
    their argument.
\<close>

record Server =
  heap :: "cref \<Rightarrow> Client"
  next_ref :: cref
  Clusters :: "string \<rightharpoonup> cref"
  Subscribers :: "string \<Rightarrow> cref list"
  LocalTopics :: "(string, cref) alist"
  Retains :: "string \<rightharpoonup> PublishPacket"
  ClusterTopics :: "string \<Rightarrow> (string \<rightharpoonup> cref)"
  PubSent :: "64 word"
  cfg_ClusterName :: string
  cfg_Clusters :: "ClusterNode list"
  spawned :: "ClusterNode list"

section \<open>The client object\<close>

text \<open>
  Modelled from the spec: the methods of \<open>Client\<close> (\<open>NewClient\<close>, \<open>GetId\<close>,
  \<open>SetId\<close>, \<open>GetTyp\<close>, \<open>Topics\<close>, \<open>AddTopic\<close>, \<open>RemoveTopic\<close>, \<open>Close\<close>,
  \<open>ReadPacket\<close>, \<open>WritePacket\<close>) are not in the two files; they follow the
  transport-wrapper contract of the specification (section 6).
\<close>

definition NewClient :: "Conn \<Rightarrow> Typ \<Rightarrow> Server \<Rightarrow> cref \<times> Server" where
  "NewClient conn typ s =
     (next_ref s,
      s\<lparr>heap := (heap s)(next_ref s :=
           \<lparr>cid = [], ctyp = typ, topics = [], reads = conn_reads conn,
            wfail = conn_wfail conn, closed = False, written = [], wire = []\<rparr>),
        next_ref := Suc (next_ref s)\<rparr>)"

definition GetId :: "Server \<Rightarrow> cref \<Rightarrow> string" where
  "GetId s c = cid (heap s c)"

definition GetTyp :: "Server \<Rightarrow> cref \<Rightarrow> Typ" where
  "GetTyp s c = ctyp (heap s c)"

definition Topics :: "Server \<Rightarrow> cref \<Rightarrow> string list" where
  "Topics s c = topics (heap s c)"

definition SetId :: "cref \<Rightarrow> string \<Rightarrow> Server \<Rightarrow> Server" where
  "SetId c i s = s\<lparr>heap := (heap s)(c := (heap s c)\<lparr>cid := i\<rparr>)\<rparr>"

definition AddTopic :: "cref \<Rightarrow> string \<Rightarrow> string \<Rightarrow> Server \<Rightarrow> Server" where
  "AddTopic c topic owner s =
     s\<lparr>heap := (heap s)(c := (heap s c)\<lparr>topics := List.insert topic (topics (heap s c))\<rparr>)\<rparr>"

definition RemoveTopic :: "cref \<Rightarrow> string \<Rightarrow> Server \<Rightarrow> Server" where
  "RemoveTopic c topic s =
     s\<lparr>heap := (heap s)(c := (heap s c)\<lparr>topics := removeAll topic (topics (heap s c))\<rparr>)\<rparr>"

definition Close :: "cref \<Rightarrow> Server \<Rightarrow> Server" where
  "Close c s = s\<lparr>heap := (heap s)(c := (heap s c)\<lparr>closed := True\<rparr>)\<rparr>"

text \<open>\<open>ReadPacket\<close> returns the next read of the connection; \<open>None\<close> is its error.\<close>

definition ReadPacket :: "cref \<Rightarrow> Server \<Rightarrow> ControlPacket option \<times> Server" where
  "ReadPacket c s =
     (case reads (heap s c) of
        [] \<Rightarrow> (None, s)
      | r # rs \<Rightarrow> (r, s\<lparr>heap := (heap s)(c := (heap s c)\<lparr>reads := rs\<rparr>)\<rparr>))"

text \<open>\<open>WritePacket\<close> returns whether the write failed (\<open>err != nil\<close>).\<close>

definition WritePacket :: "cref \<Rightarrow> ControlPacket \<Rightarrow> Server \<Rightarrow> bool \<times> Server" where
  "WritePacket c p s =
     (let cl = heap s c in
      if wfail cl
      then (True, s\<lparr>heap := (heap s)(c := cl\<lparr>written := written cl @ [p]\<rparr>)\<rparr>)
      else (False, s\<lparr>heap := (heap s)(c := cl\<lparr>written := written cl @ [p],
                                              wire := wire cl @ [p]\<rparr>)\<rparr>))"

section \<open>processor.go\<close>

subsection \<open>DoPublish\<close>

text \<open>
  The loop of \<open>DoPublish\<close> over \<open>subs\<close>; \<open>history\<close> is the \<open>map[string]bool\<close>, in
  which a missing key reads \<open>false\<close>. \<open>atomic.AddInt64\<close> wraps around.
\<close>

fun DoPublish_loop ::
  "cref list \<Rightarrow> ControlPacket \<Rightarrow> (string \<Rightarrow> bool) \<Rightarrow> Server \<Rightarrow> Server" where
  "DoPublish_loop [] packet history s = s"
| "DoPublish_loop (client # subs) packet history s =
     (if \<not> history (GetId s client)
      then let history' = history(GetId s client := True);
               s1 = snd (WritePacket client packet s);
               s2 = s1\<lparr>PubSent := PubSent s1 + 1\<rparr>
           in DoPublish_loop subs packet history' s2
      else DoPublish_loop subs packet history s)"

definition DoPublish :: "string \<Rightarrow> PublishPacket \<Rightarrow> Server \<Rightarrow> Server" where
  "DoPublish topic packet s =
     DoPublish_loop (Subscribers s topic) (Publish packet) (\<lambda>_. False) s"

subsection \<open>The stores behind the server\<close>

text \<open>
  Modelled from the spec: \<open>RemoveRetain\<close>, \<open>SearchRetain\<close> and \<open>RangeTopics\<close> of the
  local topic store and \<open>Subscribe\<close>, \<open>Unsubscribe\<close> of the cluster-subscription
  registry are not in the two files. The retained store maps a topic to its last
  retained publication; the cluster-subscription registry maps a topic to its
  subscribers, keyed by identity; \<open>RangeTopics\<close> calls its function once for each
  topic of the local topic store, one entry after the other, as long as the function
  returns \<open>true\<close>. \<open>RangeTopics_entries\<close> are the entries it goes through.
\<close>

definition RemoveRetain :: "string \<Rightarrow> Server \<Rightarrow> Server" where
  "RemoveRetain topic s = s\<lparr>Retains := (Retains s)(topic := None)\<rparr>"

definition SearchRetain :: "Server \<Rightarrow> string \<Rightarrow> PublishPacket list" where
  "SearchRetain s topic = (case Retains s topic of None \<Rightarrow> [] | Some p \<Rightarrow> [p])"

definition ClusterTopics_Subscribe :: "string \<Rightarrow> string \<Rightarrow> cref \<Rightarrow> Server \<Rightarrow> Server" where
  "ClusterTopics_Subscribe topic i c s =
     s\<lparr>ClusterTopics := (ClusterTopics s)(topic := (ClusterTopics s topic)(i \<mapsto> c))\<rparr>"

definition ClusterTopics_Unsubscribe :: "string \<Rightarrow> string \<Rightarrow> Server \<Rightarrow> Server" where
  "ClusterTopics_Unsubscribe topic i s =
     s\<lparr>ClusterTopics := (ClusterTopics s)(topic := (ClusterTopics s topic)(i := None))\<rparr>"

definition RangeTopics_entries :: "Server \<Rightarrow> (string \<times> cref) list" where
  "RangeTopics_entries s = DAList.impl_of (LocalTopics s)"

subsection \<open>The handlers of the processor\<close>

definition ProcessPublish :: "cref \<Rightarrow> PublishPacket \<Rightarrow> Server \<Rightarrow> Server" where
  "ProcessPublish client packet s =
     (let topic = TopicName packet;
          s1 = DoPublish topic packet s
      in if Retain packet then RemoveRetain topic s1 else s1)"

fun ProcessUnSubscribe_loop :: "cref \<Rightarrow> string list \<Rightarrow> Server \<Rightarrow> Server" where
  "ProcessUnSubscribe_loop client [] s = s"
| "ProcessUnSubscribe_loop client (topic # ts) s =
     (let s1 = ClusterTopics_Unsubscribe topic (GetId s client) s;
          s2 = RemoveTopic client topic s1
      in ProcessUnSubscribe_loop client ts s2)"

definition ProcessUnSubscribe :: "cref \<Rightarrow> UnsubscribePacket \<Rightarrow> Server \<Rightarrow> Server" where
  "ProcessUnSubscribe client packet s =
     (let ts = unsub_Topics packet;
          unsuback = Unsuback (unsub_MessageID packet);
          s1 = snd (WritePacket client unsuback s)
      in ProcessUnSubscribe_loop client ts s1)"

fun ProcessSubscribe_retains :: "cref \<Rightarrow> PublishPacket list \<Rightarrow> Server \<Rightarrow> Server" where
  "ProcessSubscribe_retains client [] s = s"
| "ProcessSubscribe_retains client (retain # rs) s =
     ProcessSubscribe_retains client rs (snd (WritePacket client (Publish retain) s))"

fun ProcessSubscribe_loop :: "cref \<Rightarrow> string list \<Rightarrow> Server \<Rightarrow> Server" where
  "ProcessSubscribe_loop client [] s = s"
| "ProcessSubscribe_loop client (topic # ts) s =
     (let s1 = ClusterTopics_Subscribe topic (GetId s client) client s;
          s2 = AddTopic client topic (GetId s1 client) s1;
          retains = SearchRetain s2 topic
      in ProcessSubscribe_loop client ts (ProcessSubscribe_retains client retains s2))"

definition ProcessSubscribe :: "cref \<Rightarrow> SubscribePacket \<Rightarrow> Server \<Rightarrow> Server" where
  "ProcessSubscribe client packet s =
     (let ts = sub_Topics packet;
          suback = Suback (sub_MessageID packet);
          s1 = snd (WritePacket client suback s)
      in ProcessSubscribe_loop client ts s1)"

definition ProcessPing :: "cref \<Rightarrow> Server \<Rightarrow> Server" where
  "ProcessPing client s =
     (case WritePacket client Pingresp s of
        (True, s') \<Rightarrow> s'
      | (False, s') \<Rightarrow> s')"

text \<open>
  \<open>ProcessDisconnect\<close>: the loop ranges over the topics the client holds when the
  loop starts; each step removes the topic it is at.
\<close>

fun ProcessDisconnect_loop :: "cref \<Rightarrow> string list \<Rightarrow> Server \<Rightarrow> Server" where
  "ProcessDisconnect_loop client [] s = s"
| "ProcessDisconnect_loop client (topic # ts) s =
     (let s1 = RemoveTopic client topic s;
          s2 = ClusterTopics_Unsubscribe topic (GetId s1 client) s1
      in ProcessDisconnect_loop client ts s2)"

definition ProcessDisconnect :: "cref \<Rightarrow> Server \<Rightarrow> Server" where
  "ProcessDisconnect client s =
     (let s1 = s\<lparr>Clusters := (Clusters s)(GetId s client := None)\<rparr>;
          s2 = Close client s1
      in ProcessDisconnect_loop client (Topics s2 client) s2)"

definition ProcessConnack :: "cref \<Rightarrow> ConnackPacket \<Rightarrow> Server \<Rightarrow> Server" where
  "ProcessConnack client cp s = s"

text \<open>
  \<open>cp.Validate()\<close> is a method of package \<open>packets\<close>; the handlers take it as the
  parameter \<open>validate\<close>.
\<close>

definition ProcessConnect ::
  "(ConnectPacket \<Rightarrow> 8 word) \<Rightarrow> cref \<Rightarrow> ConnectPacket \<Rightarrow> Server \<Rightarrow> Server" where
  "ProcessConnect validate client cp s =
     (let connack = \<lparr>SessionPresent = CleanSession cp, ReturnCode = validate cp\<rparr>
      in case WritePacket client (Connack connack) s of
           (True, s') \<Rightarrow> s'
         | (False, s') \<Rightarrow> s')"

fun ProcessMessage ::
  "(ConnectPacket \<Rightarrow> 8 word) \<Rightarrow> cref \<Rightarrow> ControlPacket \<Rightarrow> Server \<Rightarrow> Server" where
  "ProcessMessage validate client (Connack packet) s = ProcessConnack client packet s"
| "ProcessMessage validate client (Connect packet) s = ProcessConnect validate client packet s"
| "ProcessMessage validate client (Publish packet) s = ProcessPublish client packet s"
| "ProcessMessage validate client (Subscribe packet) s = ProcessSubscribe client packet s"
| "ProcessMessage validate client (Unsubscribe packet) s = ProcessUnSubscribe client packet s"
| "ProcessMessage validate client Pingreq s = ProcessPing client s"
| "ProcessMessage validate client Disconnect s = ProcessDisconnect client s"
| "ProcessMessage validate client Puback s = s"
| "ProcessMessage validate client Pubrec s = s"
| "ProcessMessage validate client Pubrel s = s"
| "ProcessMessage validate client Pubcomp s = s"
| "ProcessMessage validate client (Suback m) s = s"
| "ProcessMessage validate client (Unsuback m) s = s"
| "ProcessMessage validate client Pingresp s = s"

section \<open>cluster.go\<close>

subsection \<open>strings.TrimSpace\<close>

text \<open>
  \<open>strings.TrimSpace\<close> of the Go library removes every leading and every trailing
  white-space rune (\<open>unicode.IsSpace\<close>) of a string. A Go string is a sequence of
  bytes read as UTF-8; \<open>space_runes\<close> lists the encodings of the white-space runes:
  U+0009 to U+000D, U+0020, U+0085, U+00A0, U+1680, U+2000 to U+200A, U+2028,
  U+2029, U+202F, U+205F and U+3000. A byte that starts no valid encoding is the
  rune U+FFFD of width one, which is not white space.
\<close>

definition space_runes :: "string list" where
  "space_runes =
     [[CHR 0x09], [CHR 0x0A], [CHR 0x0B], [CHR 0x0C], [CHR 0x0D], [CHR 0x20],
      [CHR 0xC2, CHR 0x85], [CHR 0xC2, CHR 0xA0],
      [CHR 0xE1, CHR 0x9A, CHR 0x80],
      [CHR 0xE2, CHR 0x80, CHR 0x80], [CHR 0xE2, CHR 0x80, CHR 0x81],
      [CHR 0xE2, CHR 0x80, CHR 0x82], [CHR 0xE2, CHR 0x80, CHR 0x83],
      [CHR 0xE2, CHR 0x80, CHR 0x84], [CHR 0xE2, CHR 0x80, CHR 0x85],
      [CHR 0xE2, CHR 0x80, CHR 0x86], [CHR 0xE2, CHR 0x80, CHR 0x87],
      [CHR 0xE2, CHR 0x80, CHR 0x88], [CHR 0xE2, CHR 0x80, CHR 0x89],
      [CHR 0xE2, CHR 0x80, CHR 0x8A],
      [CHR 0xE2, CHR 0x80, CHR 0xA8], [CHR 0xE2, CHR 0x80, CHR 0xA9],
      [CHR 0xE2, CHR 0x80, CHR 0xAF],
      [CHR 0xE2, CHR 0x81, CHR 0x9F],
      [CHR 0xE3, CHR 0x80, CHR 0x80]]"

text \<open>The width of the white-space rune at the start of a string, 0 when there is none.\<close>

definition leading_space :: "string \<Rightarrow> nat" where
  "leading_space s =
     (case filter (\<lambda>w. take (length w) s = w) space_runes of
        [] \<Rightarrow> 0
      | w # _ \<Rightarrow> length w)"

text \<open>The width of the white-space rune at the end of a string, 0 when there is none.\<close>

definition trailing_space :: "string \<Rightarrow> nat" where
  "trailing_space s =
     (case filter (\<lambda>w. length w \<le> length s \<and> drop (length s - length w) s = w) space_runes of
        [] \<Rightarrow> 0
      | w # _ \<Rightarrow> length w)"

function TrimLeft :: "string \<Rightarrow> string" where
  "TrimLeft s =
     (if s \<noteq> [] \<and> 0 < leading_space s then TrimLeft (drop (leading_space s) s) else s)"
  by pat_completeness auto
termination
  by (relation "measure length") auto

function TrimRight :: "string \<Rightarrow> string" where
  "TrimRight s =
     (if s \<noteq> [] \<and> 0 < trailing_space s
      then TrimRight (take (length s - trailing_space s) s) else s)"
  by pat_completeness auto
termination
  by (relation "measure length") auto

definition TrimSpace :: "string \<Rightarrow> string" where
  "TrimSpace s = TrimRight (TrimLeft s)"

declare TrimLeft.simps [simp del] TrimRight.simps [simp del]

subsection \<open>Topic synchronisation\<close>

text \<open>
  How a call can fail to return: \<open>Blocked\<close> is a call that waits for ever (a
  \<open>wg.Wait()\<close> whose counter never reaches zero, a read loop on a connection that
  stays open), \<open>Panic\<close> a run-time panic (a negative \<open>WaitGroup\<close> counter).
\<close>

datatype fault = Blocked | Panic

text \<open>
  \<open>SyncTopics\<close> starts one goroutine \<open>go c.syncNodeTopics(wg, cluster)\<close> for each
  matching peer and then waits in \<open>wg.Wait()\<close>; the goroutines run concurrently with
  the loop that starts them and with one another. The embedding is a transition
  system. A \<open>task\<close> is where one goroutine \<open>syncNodeTopics\<close> stands:
  \<^item> \<open>Started cluster\<close>: started, before \<open>c.s.Clusters().Load(clientId)\<close>;
  \<^item> \<open>Ranging exist es\<close>: inside \<open>RangeTopics\<close>, with the entries \<open>es\<close> still to
    visit and the link \<open>exist\<close> to write on;
  \<^item> \<open>AtDone\<close>: before \<open>wg.Done()\<close>;
  \<^item> \<open>Finished\<close>: returned.
  The goroutine that runs \<open>SyncTopics\<close> is at \<open>Scanning cs\<close> while the peers \<open>cs\<close>
  of \<open>config.Clusters()\<close> are still to be looked at (with \<open>cs\<close> empty it stands
  in \<open>wg.Wait()\<close>), at \<open>Returned\<close> after the return of \<open>wg.Wait()\<close>, and the
  process is at \<open>Panicked\<close> after a panic. The \<open>sync.WaitGroup\<close> is its counter.
  Only these goroutines move: the other goroutines of the broker, which could change
  the registry or the local topic store in between, are not part of the system.
\<close>

datatype task =
    Started ClusterNode
  | Ranging cref "(string \<times> cref) list"
  | AtDone
  | Finished

datatype main_pc = Scanning "ClusterNode list" | Returned | Panicked

record SyncState =
  pc :: main_pc
  wg :: int
  tasks :: "task list"
  server :: Server

text \<open>
  One step of the loop of \<open>SyncTopics\<close>: the next peer is looked at, and for a
  matching one \<open>wg.Add(1)\<close> and the start of the goroutine; or \<open>wg.Wait()\<close>, which
  returns when the counter is zero and cannot move otherwise.
\<close>

fun SyncTopics_step :: "string \<Rightarrow> SyncState \<Rightarrow> SyncState option" where
  "SyncTopics_step clientId c =
     (case pc c of
        Scanning cs \<Rightarrow>
          (case cs of
             cluster # cs' \<Rightarrow>
               if clientId = Name cluster
               then Some (c\<lparr>pc := Scanning cs', wg := wg c + 1,
                            tasks := tasks c @ [Started cluster]\<rparr>)
               else Some (c\<lparr>pc := Scanning cs'\<rparr>)
           | [] \<Rightarrow> if wg c = 0 then Some (c\<lparr>pc := Returned\<rparr>) else None)
      | Returned \<Rightarrow> None
      | Panicked \<Rightarrow> None)"

text \<open>
  One step of the \<open>i\<close>-th goroutine \<open>syncNodeTopics\<close>: the look-up of the link under
  the trimmed name of the peer, one call of the function given to \<open>RangeTopics\<close>
  (which writes one subscribe frame with QoS 0 and returns \<open>true\<close>), the end of
  \<open>RangeTopics\<close>, or \<open>wg.Done()\<close>, which panics when the counter would become
  negative. A goroutine that has returned, or that has not been started, cannot move,
  and nothing moves after a panic.
\<close>

fun syncNodeTopics_step :: "nat \<Rightarrow> SyncState \<Rightarrow> SyncState option" where
  "syncNodeTopics_step i c =
     (if pc c = Panicked \<or> length (tasks c) \<le> i then None
      else case tasks c ! i of
        Started cluster \<Rightarrow>
          (let clientId = TrimSpace (Name cluster)
           in case Clusters (server c) clientId of
                Some exist \<Rightarrow>
                  Some (c\<lparr>tasks := (tasks c)[i := Ranging exist (RangeTopics_entries (server c))]\<rparr>)
              | None \<Rightarrow> Some (c\<lparr>tasks := (tasks c)[i := AtDone]\<rparr>))
      | Ranging exist es \<Rightarrow>
          (case es of
             (topic, client) # es' \<Rightarrow>
               (let subpack = \<lparr>sub_MessageID = 0, sub_Topics = [topic], sub_Qoss = [0]\<rparr>
                in Some (c\<lparr>tasks := (tasks c)[i := Ranging exist es'],
                           server := snd (WritePacket exist (Subscribe subpack) (server c))\<rparr>))
           | [] \<Rightarrow> Some (c\<lparr>tasks := (tasks c)[i := AtDone]\<rparr>))
      | AtDone \<Rightarrow>
          if wg c - 1 < 0
          then Some (c\<lparr>pc := Panicked, tasks := (tasks c)[i := Finished]\<rparr>)
          else Some (c\<lparr>wg := wg c - 1, tasks := (tasks c)[i := Finished]\<rparr>)
      | Finished \<Rightarrow> None)"

text \<open>
  The scheduler picks the goroutine that moves next: 0 is the goroutine that runs
  \<open>SyncTopics\<close>, \<open>i + 1\<close> the \<open>i\<close>-th goroutine that it has started.
\<close>

definition thread_step :: "string \<Rightarrow> nat \<Rightarrow> SyncState \<Rightarrow> SyncState option" where
  "thread_step clientId i c =
     (if i = 0 then SyncTopics_step clientId c else syncNodeTopics_step (i - 1) c)"

text \<open>
  A run under the choices \<open>sched\<close> of the scheduler, up to the return of
  \<open>SyncTopics\<close>; a choice that cannot move is passed over.
\<close>

fun SyncTopics_run :: "string \<Rightarrow> nat list \<Rightarrow> SyncState \<Rightarrow> SyncState" where
  "SyncTopics_run clientId [] c = c"
| "SyncTopics_run clientId (i # sched) c =
     (if pc c = Returned then c
      else case thread_step clientId i c of
             None \<Rightarrow> SyncTopics_run clientId sched c
           | Some c' \<Rightarrow> SyncTopics_run clientId sched c')"

definition SyncTopics_init :: "Server \<Rightarrow> SyncState" where
  "SyncTopics_init s = \<lparr>pc = Scanning (cfg_Clusters s), wg = 0, tasks = [], server = s\<rparr>"

text \<open>
  \<open>SyncTopics\<close> under the choices \<open>sched\<close>: the state in which it returns; when the
  scheduler grants no further step before the return, the call stays blocked.
\<close>

definition SyncTopics :: "nat list \<Rightarrow> string \<Rightarrow> Server \<Rightarrow> fault + Server" where
  "SyncTopics sched clientId s =
     (let c = SyncTopics_run clientId sched (SyncTopics_init s)
      in case pc c of
           Returned \<Rightarrow> Inr (server c)
         | Panicked \<Rightarrow> Inl Panic
         | Scanning cs \<Rightarrow> Inl Blocked)"

subsection \<open>Health check\<close>

text \<open>
  \<open>go c.StartClient(cluster)\<close> starts a goroutine and goes on; the pass records the
  start in \<open>spawned\<close>.
\<close>

fun CheckHealthy_loop :: "ClusterNode list \<Rightarrow> Server \<Rightarrow> Server" where
  "CheckHealthy_loop [] s = s"
| "CheckHealthy_loop (cluster # cs) s =
     (let clientId = TrimSpace (Name cluster)
      in case Clusters s clientId of
           None \<Rightarrow> CheckHealthy_loop cs (s\<lparr>spawned := spawned s @ [cluster]\<rparr>)
         | Some exist \<Rightarrow>
             if GetTyp s exist = TypClient
             then CheckHealthy_loop cs (snd (WritePacket exist Pingreq s))
             else CheckHealthy_loop cs s)"

definition CheckHealthy :: "Server \<Rightarrow> Server" where
  "CheckHealthy s = CheckHealthy_loop (cfg_Clusters s) s"

subsection \<open>Accepted and dialed links\<close>

text \<open>
  \<open>HandlerServer\<close> up to the registration of the link (lines 35 to 58). \<open>Inl\<close> is
  the state in which the handler returns early, \<open>Inr\<close> the new client, its identity
  and the state after \<open>c.s.Clusters().Store(clientId, client)\<close>.
\<close>

definition HandlerServer_register ::
  "(ConnectPacket \<Rightarrow> 8 word) \<Rightarrow> Conn \<Rightarrow> Server \<Rightarrow> Server + (cref \<times> string \<times> Server)" where
  "HandlerServer_register validate conn s =
     (let (client, s0) = NewClient conn TypServer s;
          (packet, s1) = ReadPacket client s0
      in case packet of
           None \<Rightarrow> Inl s1
         | Some (Connect cp) \<Rightarrow>
             (let s2 = SetId client (ClientIdentifier cp) s1;
                  clientId = ClientIdentifier cp;
                  s3 = (case Clusters s2 clientId of
                          Some oldClient \<Rightarrow> Close oldClient s2
                        | None \<Rightarrow> s2);
                  s4 = ProcessConnect validate client cp s3;
                  s5 = SetId client clientId s4;
                  s6 = s5\<lparr>Clusters := (Clusters s5)(clientId \<mapsto> client)\<rparr>
              in Inr (client, clientId, s6))
         | Some _ \<Rightarrow> Inl s1)"

text \<open>
  \<open>client.ReadLoop\<close> is a method of \<open>Client\<close> that is not in the two files; the
  handlers take it as the parameter \<open>ReadLoop\<close>. \<open>sched\<close> are the choices of the
  scheduler during \<open>SyncTopics\<close>.
\<close>

definition HandlerServer ::
  "(ConnectPacket \<Rightarrow> 8 word) \<Rightarrow> (cref \<Rightarrow> Server \<Rightarrow> fault + Server) \<Rightarrow> nat list \<Rightarrow> Conn
     \<Rightarrow> Server \<Rightarrow> fault + Server" where
  "HandlerServer validate ReadLoop sched conn s =
     (case HandlerServer_register validate conn s of
        Inl s' \<Rightarrow> Inr s'
      | Inr (client, clientId, s') \<Rightarrow>
          (case SyncTopics sched clientId s' of
             Inl e \<Rightarrow> Inl e
           | Inr s'' \<Rightarrow> ReadLoop client s''))"

text \<open>\<open>HandlerClient\<close> up to the registration of the link (lines 116 to 137).\<close>

definition HandlerClient_register ::
  "Conn \<Rightarrow> ClusterNode \<Rightarrow> Server \<Rightarrow> Server + (cref \<times> Server)" where
  "HandlerClient_register conn cluster s =
     (let connect = \<lparr>ProtocolName = ''MQTT'', ProtocolVersion = 4, CleanSession = True,
                     ClientIdentifier = cfg_ClusterName s, Keepalive = 60\<rparr>;
          (client, s0) = NewClient conn TypClient s;
          (err, s1) = WritePacket client (Connect connect) (SetId client (Name cluster) s0)
      in if err then Inl s1
         else
           (let s2 = (case Clusters s1 (Name cluster) of
                        Some oldClient \<Rightarrow> Close oldClient s1
                      | None \<Rightarrow> s1);
                s3 = SetId client (Name cluster) s2;
                s4 = s3\<lparr>Clusters := (Clusters s3)(Name cluster \<mapsto> client)\<rparr>
            in Inr (client, s4)))"

definition HandlerClient ::
  "(cref \<Rightarrow> Server \<Rightarrow> fault + Server) \<Rightarrow> nat list \<Rightarrow> Conn \<Rightarrow> ClusterNode \<Rightarrow> Server
     \<Rightarrow> fault + Server" where
  "HandlerClient ReadLoop sched conn cluster s =
     (case HandlerClient_register conn cluster s of
        Inl s' \<Rightarrow> Inr s'
      | Inr (client, s') \<Rightarrow>
          (case SyncTopics sched (Name cluster) s' of
             Inl e \<Rightarrow> Inl e
           | Inr s'' \<Rightarrow> ReadLoop client s''))"

text \<open>
  \<open>StartClient\<close>: \<open>dial\<close> is the result of \<open>tls.Dial\<close> or \<open>net.DialTimeout\<close>,
  \<open>None\<close> when it returns an error. The loading of the TLS material before the
  dial, which ends the process when it fails, is left out, and so are
  \<open>StartServer\<close>, \<open>HeartBeat\<close>, \<open>Start\<close> and \<open>Close\<close>, which only drive the
  listener, the timer and the context.
\<close>

definition StartClient ::
  "(cref \<Rightarrow> Server \<Rightarrow> fault + Server) \<Rightarrow> nat list \<Rightarrow> Conn option \<Rightarrow> ClusterNode \<Rightarrow> Server
     \<Rightarrow> fault + Server" where
  "StartClient ReadLoop sched dial cluster s =
     (case dial of
        None \<Rightarrow> Inr s
      | Some conn \<Rightarrow> HandlerClient ReadLoop sched conn cluster s)"

section \<open>Auxiliary definitions for the proofs\<close>

text \<open>
  The subscribers that the loop of \<open>DoPublish\<close> writes to: going through \<open>cs\<close>, a
  client is kept when its identity (read by \<open>g\<close>) is not among the identities \<open>H\<close>
  seen before it.
\<close>

fun recipients :: "(cref \<Rightarrow> string) \<Rightarrow> string set \<Rightarrow> cref list \<Rightarrow> cref list" where
  "recipients g H [] = []"
| "recipients g H (c # cs) =
     (if g c \<notin> H then c # recipients g (insert (g c) H) cs else recipients g H cs)"

subsection \<open>Bookkeeping for the topic synchronisation\<close>












subsection \<open>An example node\<close>

text \<open>
  A node named \<open>node-local\<close> with the configured peers \<open>A\<close>, \<open>B\<close> (written with
  surrounding blanks) and \<open>C\<close>. Client 0 is the dialed link to \<open>A\<close>, client 1 the
  accepted link from \<open>C\<close>, and \<open>B\<close> has no link. Clients 2, 3 and 4 are local
  subscribers of topic \<open>t\<close>; 2 and 4 share the identity \<open>x\<close>, and writes to 3 fail.
  Client 5 is an earlier link to \<open>A\<close> that client 0 has displaced.
\<close>

definition example_client :: "string \<Rightarrow> Typ \<Rightarrow> string list \<Rightarrow> bool \<Rightarrow> bool \<Rightarrow> Client" where
  "example_client i t ts f c =
     \<lparr>cid = i, ctyp = t, topics = ts, reads = [], wfail = f, closed = c,
      written = [], wire = []\<rparr>"

definition example_server :: Server where
  "example_server =
     \<lparr>heap = (\<lambda>_. example_client [] TypServer [] False False)
         (0 := example_client ''A'' TypClient [''a/b'', ''c/d''] False False,
          1 := example_client ''C'' TypServer [] False False,
          2 := example_client ''x'' TypServer [] False False,
          3 := example_client ''y'' TypServer [] True False,
          4 := example_client ''x'' TypServer [] False False,
          5 := example_client ''A'' TypServer [''a/b''] False True),
      next_ref = 6,
      Clusters = [''A'' \<mapsto> 0, ''C'' \<mapsto> 1],
      Subscribers = (\<lambda>_. [])(''t'' := [2, 3, 2, 4]),
      LocalTopics = Alist [(''t'', 2), (''u'', 3)],
      Retains = [''t'' \<mapsto> \<lparr>TopicName = ''t'', Retain = True, Payload = [1]\<rparr>],
      ClusterTopics = (\<lambda>_. Map.empty)(''a/b'' := [''A'' \<mapsto> 0, ''C'' \<mapsto> 1], ''c/d'' := [''A'' \<mapsto> 0]),
      PubSent = 0,
      cfg_ClusterName = ''node-local'',
      cfg_Clusters = [\<lparr>Name = ''A'', Host = ''10.0.0.4:1883''\<rparr>,
                      \<lparr>Name = '' B '', Host = ''10.0.0.5:1883''\<rparr>,
                      \<lparr>Name = ''C'', Host = ''10.0.0.6:1883''\<rparr>],
      spawned = []\<rparr>"


definition example_publish :: PublishPacket where
  "example_publish = \<lparr>TopicName = ''t'', Retain = True, Payload = [7]\<rparr>"

definition example_connect :: ConnectPacket where
  "example_connect = \<lparr>ProtocolName = ''MQTT'', ProtocolVersion = 4, CleanSession = True,
     ClientIdentifier = ''A'', Keepalive = 60\<rparr>"

definition example_conn :: Conn where
  "example_conn = \<lparr>conn_reads = [Some (Connect example_connect), Some Pingreq], conn_wfail = False\<rparr>"

text \<open>
  A validation that accepts every request, and a read loop that returns at once.
\<close>

definition example_validate :: "ConnectPacket \<Rightarrow> 8 word" where
  "example_validate cp = 0"

definition example_ReadLoop :: "cref \<Rightarrow> Server \<Rightarrow> fault + Server" where
  "example_ReadLoop client s = Inr s"

section \<open>Verification\<close>

subsection \<open>Writing a packet\<close>

lemma WritePacket_snd:
  "snd (WritePacket c p s) =
     s\<lparr>heap := (heap s)(c := (heap s c)
        \<lparr>written := written (heap s c) @ [p],
         wire := wire (heap s c) @ (if wfail (heap s c) then [] else [p])\<rparr>)\<rparr>"
  by (simp add: WritePacket_def Let_def)

lemma WritePacket_fst: "fst (WritePacket c p s) = wfail (heap s c)"
  by (simp add: WritePacket_def Let_def)

lemma GetId_WritePacket [simp]: "GetId (snd (WritePacket c p s)) = GetId s"
  by (rule ext) (simp add: GetId_def WritePacket_snd)

lemma GetId_PubSent_update [simp]: "GetId (s\<lparr>PubSent := n\<rparr>) = GetId s"
  by (rule ext) (simp add: GetId_def)

lemma PubSent_WritePacket [simp]: "PubSent (snd (WritePacket c p s)) = PubSent s"
  by (simp add: WritePacket_snd)

subsection \<open>The fan-out of a publication\<close>

lemma history_insert: "{i. (h(x := True)) i} = insert x {i. h i}"
  by auto

lemma recipients_subset: "set (recipients g H cs) \<subseteq> set cs"
  by (induction cs arbitrary: H) auto

lemma recipients_unseen: "c \<in> set (recipients g H cs) \<Longrightarrow> g c \<notin> H"
  by (induction cs arbitrary: H) (auto split: if_splits)

lemma recipients_ids: "g ` set (recipients g H cs) = g ` set cs - H"
  by (induction cs arbitrary: H) (auto split: if_splits)

lemma recipients_distinct: "distinct (map g (recipients g H cs))"
  by (induction cs arbitrary: H) (auto dest: recipients_unseen)

lemma recipients_length: "length (recipients g H cs) = card (g ` set cs - H)"
proof -
  have "length (recipients g H cs) = length (map g (recipients g H cs))" by simp
  also have "\<dots> = card (set (map g (recipients g H cs)))"
    using recipients_distinct [of g H cs] by (simp only: distinct_card)
  also have "\<dots> = card (g ` set cs - H)"
    by (simp add: recipients_ids)
  finally show ?thesis .
qed

lemma DoPublish_loop_step:
  "\<not> h (GetId s a) \<Longrightarrow>
   DoPublish_loop (a # cs) p h s =
     DoPublish_loop cs p (h(GetId s a := True))
       ((snd (WritePacket a p s))\<lparr>PubSent := PubSent s + 1\<rparr>)"
  by (simp add: Let_def)

lemma DoPublish_loop_PubSent:
  "PubSent (DoPublish_loop cs p h s) =
     PubSent s + of_nat (length (recipients (GetId s) {i. h i} cs))"
proof (induction cs arbitrary: h s)
  case Nil
  then show ?case by simp
next
  case (Cons a cs)
  show ?case
  proof (cases "h (GetId s a)")
    case True
    then show ?thesis using Cons.IH [of h s] by simp
  next
    case False
    let ?s = "(snd (WritePacket a p s))\<lparr>PubSent := PubSent s + 1\<rparr>"
    have g: "GetId ?s = GetId s" by simp
    have "PubSent (DoPublish_loop (a # cs) p h s) =
            PubSent (DoPublish_loop cs p (h(GetId s a := True)) ?s)"
      using False DoPublish_loop_step [of h s a cs p] by simp
    also have "\<dots> = PubSent ?s +
        of_nat (length (recipients (GetId s) (insert (GetId s a) {i. h i}) cs))"
      using Cons.IH [of "h(GetId s a := True)" ?s] by (simp only: g history_insert)
    also have "\<dots> = PubSent s + of_nat (length (recipients (GetId s) {i. h i} (a # cs)))"
      using False by simp
    finally show ?thesis .
  qed
qed

lemma DoPublish_loop_heap:
  "heap (DoPublish_loop cs p h s) c =
     (if c \<in> set (recipients (GetId s) {i. h i} cs)
      then (heap s c)\<lparr>written := written (heap s c) @ [p],
                       wire := wire (heap s c) @ (if wfail (heap s c) then [] else [p])\<rparr>
      else heap s c)"
proof (induction cs arbitrary: h s)
  case Nil
  then show ?case by simp
next
  case (Cons a cs)
  show ?case
  proof (cases "h (GetId s a)")
    case True
    then show ?thesis using Cons.IH [of h s] by simp
  next
    case False
    let ?H = "insert (GetId s a) {i. h i}"
    let ?s = "(snd (WritePacket a p s))\<lparr>PubSent := PubSent s + 1\<rparr>"
    have a: "a \<notin> set (recipients (GetId s) ?H cs)"
      using recipients_unseen [of a "GetId s" ?H cs] by auto
    have w: "heap ?s c =
        (if c = a then (heap s c)\<lparr>written := written (heap s c) @ [p],
                       wire := wire (heap s c) @ (if wfail (heap s c) then [] else [p])\<rparr>
         else heap s c)"
      by (simp add: WritePacket_snd)
    have g: "GetId ?s = GetId s" by simp
    have "heap (DoPublish_loop (a # cs) p h s) c =
            heap (DoPublish_loop cs p (h(GetId s a := True)) ?s) c"
      using False DoPublish_loop_step [of h s a cs p] by simp
    also have "\<dots> = (if c \<in> set (recipients (GetId s) ?H cs)
      then (heap ?s c)\<lparr>written := written (heap ?s c) @ [p],
                       wire := wire (heap ?s c) @ (if wfail (heap ?s c) then [] else [p])\<rparr>
      else heap ?s c)"
      using Cons.IH [of "h(GetId s a := True)" ?s] by (simp only: g history_insert)
    also have "\<dots> = (if c \<in> set (recipients (GetId s) {i. h i} (a # cs))
      then (heap s c)\<lparr>written := written (heap s c) @ [p],
                       wire := wire (heap s c) @ (if wfail (heap s c) then [] else [p])\<rparr>
      else heap s c)"
      using False a w by auto
    finally show ?thesis .
  qed
qed

lemma DoPublish_loop_frame:
  "\<exists>hp n. DoPublish_loop cs p h s = s\<lparr>heap := hp, PubSent := n\<rparr>"
proof (induction cs arbitrary: h s)
  case Nil
  have "s = s\<lparr>heap := heap s, PubSent := PubSent s\<rparr>" by simp
  then show ?case by (metis DoPublish_loop.simps(1))
next
  case (Cons a cs)
  show ?case
  proof (cases "h (GetId s a)")
    case True
    then show ?thesis using Cons.IH [of h s] by simp
  next
    case False
    let ?s = "(snd (WritePacket a p s))\<lparr>PubSent := PubSent s + 1\<rparr>"
    obtain hp n where
      "DoPublish_loop cs p (h(GetId s a := True)) ?s = ?s\<lparr>heap := hp, PubSent := n\<rparr>"
      using Cons.IH [of "h(GetId s a := True)" ?s] by blast
    then have "DoPublish_loop (a # cs) p h s = s\<lparr>heap := hp, PubSent := n\<rparr>"
      using False DoPublish_loop_step [of h s a cs p] by (simp add: WritePacket_snd)
    then show ?thesis by blast
  qed
qed

lemma DoPublish_frame: "\<exists>hp n. DoPublish topic packet s = s\<lparr>heap := hp, PubSent := n\<rparr>"
  unfolding DoPublish_def by (rule DoPublish_loop_frame)

lemma DoPublish_PubSent:
  "PubSent (DoPublish topic packet s) =
     PubSent s + of_nat (card (GetId s ` set (Subscribers s topic)))"
  by (simp add: DoPublish_def DoPublish_loop_PubSent recipients_length)

lemma DoPublish_heap:
  "heap (DoPublish topic packet s) c =
     (if c \<in> set (recipients (GetId s) {} (Subscribers s topic))
      then (heap s c)\<lparr>written := written (heap s c) @ [Publish packet],
                       wire := wire (heap s c) @ (if wfail (heap s c) then [] else [Publish packet])\<rparr>
      else heap s c)"
  using DoPublish_loop_heap [of "Subscribers s topic" "Publish packet" "\<lambda>_. False" s c]
  by (simp add: DoPublish_def)

lemma sint_add_of_nat:
  fixes w :: "64 word"
  assumes "sint w + int n < 2 ^ 63"
  shows "sint (w + of_nat n) = sint w + int n"
proof -
  have lo: "- (2 ^ 63) \<le> sint w" using sint_ge [of w] by simp
  have self: "signed_take_bit 63 (sint w) = sint w"
    using lo sint_lt [of w] by (simp add: signed_take_bit_int_eq_self)
  have n: "sint (of_nat n :: 64 word) = signed_take_bit 63 (int n)"
    using sint_sbintrunc' [where 'a = 64, of "int n"] by simp
  have "sint (w + of_nat n) = signed_take_bit 63 (sint w + sint (of_nat n :: 64 word))"
    by (simp add: sint_word_add)
  also have "\<dots> = signed_take_bit 63 (signed_take_bit 63 (sint w) + signed_take_bit 63 (int n))"
    by (simp only: n self)
  also have "\<dots> = signed_take_bit 63 (sint w + int n)"
    by (rule signed_take_bit_add)
  also have "\<dots> = sint w + int n"
    using lo assms by (intro signed_take_bit_int_eq_self) simp_all
  finally show ?thesis .
qed

lemma example_ids:
  "GetId example_server ` set (Subscribers example_server ''t'') = {''x'', ''y''}"
  by (auto simp add: example_server_def example_client_def GetId_def)

text \<open>
  Claim C2. For every topic and every list of local subscribers of the topic, with
  or without repeated identities, one \<open>DoPublish\<close> hands the frame to
  \<open>WritePacket\<close> exactly once for each unique subscriber identity: there is a set
  \<open>R\<close> of subscribers that holds exactly one client per identity occurring in the
  list, the frame is appended once to what was written on each client of \<open>R\<close>, and
  nothing is written on any other client. The counter \<open>PubSent\<close> grows by the number
  of unique identities (as an \<open>int64\<close>; read as a signed number, by exactly that
  number unless the addition overflows).
\<close>

theorem DoPublish_once_per_identity:
  "(\<exists>R. R \<subseteq> set (Subscribers s topic) \<and>
        inj_on (GetId s) R \<and>
        GetId s ` R = GetId s ` set (Subscribers s topic) \<and>
        (\<forall>c. written (heap (DoPublish topic packet s) c) =
               written (heap s c) @ (if c \<in> R then [Publish packet] else []))) \<and>
   PubSent (DoPublish topic packet s) =
     PubSent s + of_nat (card (GetId s ` set (Subscribers s topic))) \<and>
   (sint (PubSent s) + int (card (GetId s ` set (Subscribers s topic))) < 2 ^ 63 \<longrightarrow>
    sint (PubSent (DoPublish topic packet s)) =
      sint (PubSent s) + int (card (GetId s ` set (Subscribers s topic))))"
proof -
  let ?R = "set (recipients (GetId s) {} (Subscribers s topic))"
  have sub: "?R \<subseteq> set (Subscribers s topic)" by (rule recipients_subset)
  have inj: "inj_on (GetId s) ?R"
    using recipients_distinct [of "GetId s" "{}" "Subscribers s topic"]
    by (simp add: distinct_map)
  have ids: "GetId s ` ?R = GetId s ` set (Subscribers s topic)"
    by (simp add: recipients_ids)
  have wr: "\<forall>c. written (heap (DoPublish topic packet s) c) =
               written (heap s c) @ (if c \<in> ?R then [Publish packet] else [])"
    by (simp add: DoPublish_heap)
  have ex: "\<exists>R. R \<subseteq> set (Subscribers s topic) \<and>
        inj_on (GetId s) R \<and>
        GetId s ` R = GetId s ` set (Subscribers s topic) \<and>
        (\<forall>c. written (heap (DoPublish topic packet s) c) =
               written (heap s c) @ (if c \<in> R then [Publish packet] else []))"
    using sub inj ids wr by blast
  show ?thesis
    using ex by (simp add: DoPublish_PubSent sint_add_of_nat)
qed

theorem DoPublish_once_per_identity_witness:
  "sint (PubSent example_server)
     + int (card (GetId example_server ` set (Subscribers example_server ''t''))) < 2 ^ 63 \<and>
   sint (PubSent (DoPublish ''t'' example_publish example_server)) = 2"
proof -
  have c: "card (GetId example_server ` set (Subscribers example_server ''t'')) = 2"
    by (simp add: example_ids)
  have z: "PubSent example_server = 0" by (simp add: example_server_def)
  have h: "sint (PubSent example_server)
     + int (card (GetId example_server ` set (Subscribers example_server ''t''))) < 2 ^ 63"
    by (simp add: c z)
  show ?thesis
    using h DoPublish_once_per_identity [of example_server "''t''" example_publish]
    by (simp add: c z)
qed

lemma DoPublish_fanout:
  "\<exists>R. R \<subseteq> set (Subscribers s topic) \<and>
        inj_on (GetId s) R \<and>
        GetId s ` R = GetId s ` set (Subscribers s topic) \<and>
        (\<forall>c. heap (DoPublish topic packet s) c =
           (if c \<in> R
            then (heap s c)\<lparr>written := written (heap s c) @ [Publish packet],
                   wire := wire (heap s c) @ (if wfail (heap s c) then [] else [Publish packet])\<rparr>
            else heap s c))"
proof -
  let ?R = "set (recipients (GetId s) {} (Subscribers s topic))"
  have "?R \<subseteq> set (Subscribers s topic)" by (rule recipients_subset)
  moreover have "inj_on (GetId s) ?R"
    using recipients_distinct [of "GetId s" "{}" "Subscribers s topic"]
    by (simp add: distinct_map)
  moreover have "GetId s ` ?R = GetId s ` set (Subscribers s topic)"
    by (simp add: recipients_ids)
  moreover have "\<forall>c. heap (DoPublish topic packet s) c =
           (if c \<in> ?R
            then (heap s c)\<lparr>written := written (heap s c) @ [Publish packet],
                   wire := wire (heap s c) @ (if wfail (heap s c) then [] else [Publish packet])\<rparr>
            else heap s c)"
    by (simp add: DoPublish_heap)
  ultimately show ?thesis by blast
qed

text \<open>
  Claim C10. The counter \<open>PubSent\<close> counts the calls of \<open>WritePacket\<close>, not the
  frames that went out. \<open>DoPublish\<close> hands the frame to \<open>WritePacket\<close> on the
  clients of a set \<open>R\<close> that holds exactly one subscriber per unique identity (the
  frame is appended once to what was written on each of them, and to nothing else),
  and it adds the number of these clients to the counter; the frame goes out only on
  those clients of \<open>R\<close> whose write does not fail.
\<close>

theorem DoPublish_counts_attempts:
  "\<exists>R. R \<subseteq> set (Subscribers s topic) \<and>
        inj_on (GetId s) R \<and>
        GetId s ` R = GetId s ` set (Subscribers s topic) \<and>
        (\<forall>c. written (heap (DoPublish topic packet s) c) =
               written (heap s c) @ (if c \<in> R then [Publish packet] else [])) \<and>
        (\<forall>c. wire (heap (DoPublish topic packet s) c) =
               wire (heap s c) @
               (if c \<in> R \<and> \<not> wfail (heap s c) then [Publish packet] else [])) \<and>
        PubSent (DoPublish topic packet s) = PubSent s + of_nat (card R)"
proof -
  obtain R where R: "R \<subseteq> set (Subscribers s topic)" "inj_on (GetId s) R"
      "GetId s ` R = GetId s ` set (Subscribers s topic)"
    and h: "\<forall>c. heap (DoPublish topic packet s) c =
           (if c \<in> R
            then (heap s c)\<lparr>written := written (heap s c) @ [Publish packet],
                   wire := wire (heap s c) @ (if wfail (heap s c) then [] else [Publish packet])\<rparr>
            else heap s c)"
    using DoPublish_fanout [of s topic packet] by blast
  have "card R = card (GetId s ` set (Subscribers s topic))"
    using card_image [OF R(2)] R(3) by simp
  then have "PubSent (DoPublish topic packet s) = PubSent s + of_nat (card R)"
    by (simp add: DoPublish_PubSent)
  moreover have "\<forall>c. written (heap (DoPublish topic packet s) c) =
               written (heap s c) @ (if c \<in> R then [Publish packet] else [])"
    by (simp add: h)
  moreover have "\<forall>c. wire (heap (DoPublish topic packet s) c) =
               wire (heap s c) @
               (if c \<in> R \<and> \<not> wfail (heap s c) then [Publish packet] else [])"
    by (simp add: h)
  ultimately show ?thesis using R by blast
qed

theorem DoPublish_counts_attempts_witness:
  "wfail (heap example_server 3) \<and>
   written (heap (DoPublish ''t'' example_publish example_server) 3) = [Publish example_publish] \<and>
   wire (heap (DoPublish ''t'' example_publish example_server) 3) = [] \<and>
   PubSent (DoPublish ''t'' example_publish example_server) = PubSent example_server + 2"
proof -
  let ?s' = "DoPublish ''t'' example_publish example_server"
  have f: "wfail (heap example_server 3)"
    by (simp add: example_server_def example_client_def)
  have w: "wire (heap example_server 3) = []" "written (heap example_server 3) = []"
    by (simp_all add: example_server_def example_client_def)
  have subs: "set (Subscribers example_server ''t'') = {2, 3, 4}"
    by (auto simp add: example_server_def)
  have ids: "GetId example_server 2 = ''x''" "GetId example_server 3 = ''y''"
      "GetId example_server 4 = ''x''"
    by (simp_all add: example_server_def example_client_def GetId_def)
  obtain R where R: "R \<subseteq> set (Subscribers example_server ''t'')"
      "inj_on (GetId example_server) R"
      "GetId example_server ` R = GetId example_server ` set (Subscribers example_server ''t'')"
    and wr: "\<forall>c. written (heap ?s' c) =
               written (heap example_server c) @ (if c \<in> R then [Publish example_publish] else [])"
    and wi: "\<forall>c. wire (heap ?s' c) =
               wire (heap example_server c) @
               (if c \<in> R \<and> \<not> wfail (heap example_server c) then [Publish example_publish] else [])"
    and n: "PubSent ?s' = PubSent example_server + of_nat (card R)"
    using DoPublish_counts_attempts [of example_server "''t''" example_publish] by blast
  have "''y'' \<in> GetId example_server ` R"
    using R(3) subs ids by auto
  then obtain c where c: "c \<in> R" "GetId example_server c = ''y''" by auto
  then have "c \<in> {2, 3, 4}" using R(1) subs by blast
  then have "c = 3" using c(2) ids by auto
  then have in3: "3 \<in> R" using c(1) by simp
  have "card R = card (GetId example_server ` R)"
    using card_image [OF R(2)] by simp
  also have "\<dots> = 2" using R(3) by (simp add: example_ids)
  finally have k: "card R = 2" .
  show ?thesis
    using f wr [rule_format, of 3] wi [rule_format, of 3] n in3 k w by simp
qed

subsection \<open>Publications and the retained store\<close>

lemma DoPublish_Retains [simp]: "Retains (DoPublish topic packet s) = Retains s"
proof -
  obtain hp n where "DoPublish topic packet s = s\<lparr>heap := hp, PubSent := n\<rparr>"
    using DoPublish_frame by blast
  then show ?thesis by simp
qed

text \<open>
  Claim C6. \<open>ProcessPublish\<close> fans the frame out to the local subscribers of the
  frame's topic: the frame is handed to \<open>WritePacket\<close> once on exactly one
  subscriber per unique identity and on no other client, and the counter \<open>PubSent\<close>
  grows by the number of unique identities. When the retain flag of the frame is set
  it then removes the entry of the frame's topic from the retained store of this
  node, so that the store has no entry for the topic afterwards (and is otherwise as
  before); when the flag is clear the retained store is left as it was.
\<close>

theorem ProcessPublish_retain:
  "(\<exists>R. R \<subseteq> set (Subscribers s (TopicName packet)) \<and>
        inj_on (GetId s) R \<and>
        GetId s ` R = GetId s ` set (Subscribers s (TopicName packet)) \<and>
        (\<forall>c. written (heap (ProcessPublish client packet s) c) =
               written (heap s c) @ (if c \<in> R then [Publish packet] else []))) \<and>
   PubSent (ProcessPublish client packet s) =
     PubSent s + of_nat (card (GetId s ` set (Subscribers s (TopicName packet)))) \<and>
   (Retain packet \<longrightarrow>
      ProcessPublish client packet s =
        RemoveRetain (TopicName packet) (DoPublish (TopicName packet) packet s) \<and>
      Retains (ProcessPublish client packet s) = (Retains s)(TopicName packet := None) \<and>
      Retains (ProcessPublish client packet s) (TopicName packet) = None) \<and>
   (\<not> Retain packet \<longrightarrow>
      ProcessPublish client packet s = DoPublish (TopicName packet) packet s \<and>
      Retains (ProcessPublish client packet s) = Retains s)"
proof -
  let ?t = "TopicName packet"
  have hp: "heap (ProcessPublish client packet s) = heap (DoPublish ?t packet s)"
    and ps: "PubSent (ProcessPublish client packet s) = PubSent (DoPublish ?t packet s)"
    by (simp_all add: ProcessPublish_def Let_def RemoveRetain_def)
  obtain R where R: "R \<subseteq> set (Subscribers s ?t)" "inj_on (GetId s) R"
      "GetId s ` R = GetId s ` set (Subscribers s ?t)"
    and h: "\<forall>c. heap (DoPublish ?t packet s) c =
           (if c \<in> R
            then (heap s c)\<lparr>written := written (heap s c) @ [Publish packet],
                   wire := wire (heap s c) @ (if wfail (heap s c) then [] else [Publish packet])\<rparr>
            else heap s c)"
    using DoPublish_fanout [of s ?t packet] by blast
  have "\<forall>c. written (heap (ProcessPublish client packet s) c) =
               written (heap s c) @ (if c \<in> R then [Publish packet] else [])"
    by (simp add: hp h)
  then have 1: "\<exists>R. R \<subseteq> set (Subscribers s ?t) \<and>
        inj_on (GetId s) R \<and>
        GetId s ` R = GetId s ` set (Subscribers s ?t) \<and>
        (\<forall>c. written (heap (ProcessPublish client packet s) c) =
               written (heap s c) @ (if c \<in> R then [Publish packet] else []))"
    using R by blast
  have 2: "PubSent (ProcessPublish client packet s) =
     PubSent s + of_nat (card (GetId s ` set (Subscribers s ?t)))"
    by (simp add: ps DoPublish_PubSent)
  have 3: "(Retain packet \<longrightarrow>
      ProcessPublish client packet s = RemoveRetain ?t (DoPublish ?t packet s) \<and>
      Retains (ProcessPublish client packet s) = (Retains s)(?t := None) \<and>
      Retains (ProcessPublish client packet s) ?t = None) \<and>
   (\<not> Retain packet \<longrightarrow>
      ProcessPublish client packet s = DoPublish ?t packet s \<and>
      Retains (ProcessPublish client packet s) = Retains s)"
    by (simp add: ProcessPublish_def Let_def RemoveRetain_def)
  show ?thesis using 1 2 3 by blast
qed

theorem ProcessPublish_retain_witness:
  "Retain example_publish \<and> Retains example_server ''t'' \<noteq> None \<and>
   Retains (ProcessPublish 0 example_publish example_server) ''t'' = None \<and>
   PubSent (ProcessPublish 0 example_publish example_server) = PubSent example_server + 2 \<and>
   \<not> Retain (example_publish\<lparr>Retain := False\<rparr>) \<and>
   Retains (ProcessPublish 0 (example_publish\<lparr>Retain := False\<rparr>) example_server) ''t''
     = Retains example_server ''t''"
proof -
  have r: "Retain example_publish" by (simp add: example_publish_def)
  have n: "TopicName example_publish = ''t''" by (simp add: example_publish_def)
  have e: "Retains example_server ''t'' \<noteq> None" by (simp add: example_server_def)
  have f: "\<not> Retain (example_publish\<lparr>Retain := False\<rparr>)" by simp
  have k: "card (GetId example_server ` set (Subscribers example_server ''t'')) = 2"
    by (simp add: example_ids)
  note th = ProcessPublish_retain [of example_server example_publish 0]
  have 1: "Retains (ProcessPublish 0 example_publish example_server) ''t'' = None"
    using th r unfolding n by blast
  have "PubSent (ProcessPublish 0 example_publish example_server) =
          PubSent example_server +
          of_nat (card (GetId example_server ` set (Subscribers example_server ''t'')))"
    using th unfolding n by blast
  then have 3: "PubSent (ProcessPublish 0 example_publish example_server) =
          PubSent example_server + 2"
    unfolding k by simp
  have 2: "Retains (ProcessPublish 0 (example_publish\<lparr>Retain := False\<rparr>) example_server)
             = Retains example_server"
    using ProcessPublish_retain [of example_server "example_publish\<lparr>Retain := False\<rparr>" 0] f
    by blast
  show ?thesis
    using r e f 1 2 3 by simp
qed

subsection \<open>The reply to a connect frame\<close>

text \<open>
  Claim C8. For every connect frame \<open>ProcessConnect\<close> hands exactly one frame to
  \<open>WritePacket\<close> on the client: an acknowledgment whose session-present flag is the
  clean-session flag of the request and whose return code is the result of
  validating the request. Nothing else of the state changes: the registry, the topic
  stores, the retained store and the counter are as before.
\<close>

theorem ProcessConnect_reply_only:
  "ProcessConnect validate client cp s =
     s\<lparr>heap := (heap s)(client := (heap s client)
        \<lparr>written := written (heap s client) @
             [Connack \<lparr>SessionPresent = CleanSession cp, ReturnCode = validate cp\<rparr>],
         wire := wire (heap s client) @
             (if wfail (heap s client) then []
              else [Connack \<lparr>SessionPresent = CleanSession cp, ReturnCode = validate cp\<rparr>])\<rparr>)\<rparr> \<and>
   Clusters (ProcessConnect validate client cp s) = Clusters s \<and>
   LocalTopics (ProcessConnect validate client cp s) = LocalTopics s \<and>
   Subscribers (ProcessConnect validate client cp s) = Subscribers s \<and>
   ClusterTopics (ProcessConnect validate client cp s) = ClusterTopics s \<and>
   Retains (ProcessConnect validate client cp s) = Retains s \<and>
   PubSent (ProcessConnect validate client cp s) = PubSent s"
  by (simp add: ProcessConnect_def WritePacket_def Let_def)

subsection \<open>Disconnect processing\<close>

lemma ProcessDisconnect_loop_GetId [simp]:
  "GetId (ProcessDisconnect_loop client ts s) = GetId s"
  by (induction ts arbitrary: s)
     (simp_all add: Let_def GetId_def RemoveTopic_def ClusterTopics_Unsubscribe_def fun_eq_iff)

lemma ProcessDisconnect_loop_Clusters [simp]:
  "Clusters (ProcessDisconnect_loop client ts s) = Clusters s"
  by (induction ts arbitrary: s)
     (simp_all add: Let_def RemoveTopic_def ClusterTopics_Unsubscribe_def)

lemma filter_removeAll:
  "filter (\<lambda>u. u \<notin> set ts) (removeAll t xs) = filter (\<lambda>u. u \<noteq> t \<and> u \<notin> set ts) xs"
  by (induction xs) auto

lemma ProcessDisconnect_loop_heap:
  "heap (ProcessDisconnect_loop client ts s) =
     (heap s)(client := (heap s client)
        \<lparr>topics := filter (\<lambda>t. t \<notin> set ts) (topics (heap s client))\<rparr>)"
proof (induction ts arbitrary: s)
  case Nil
  then show ?case by simp
next
  case (Cons t ts)
  let ?s = "ClusterTopics_Unsubscribe t (GetId (RemoveTopic client t s) client)
              (RemoveTopic client t s)"
  have h: "heap ?s =
      (heap s)(client := (heap s client)\<lparr>topics := removeAll t (topics (heap s client))\<rparr>)"
    by (simp add: RemoveTopic_def ClusterTopics_Unsubscribe_def)
  have "heap (ProcessDisconnect_loop client (t # ts) s) =
          heap (ProcessDisconnect_loop client ts ?s)"
    by (simp add: Let_def)
  also have "\<dots> = (heap ?s)(client := (heap ?s client)
        \<lparr>topics := filter (\<lambda>t. t \<notin> set ts) (topics (heap ?s client))\<rparr>)"
    by (rule Cons.IH)
  also have "\<dots> = (heap s)(client := (heap s client)
        \<lparr>topics := filter (\<lambda>u. u \<notin> set (t # ts)) (topics (heap s client))\<rparr>)"
    by (simp add: h filter_removeAll)
  finally show ?case .
qed

lemma ProcessDisconnect_loop_ClusterTopics:
  "ClusterTopics (ProcessDisconnect_loop client ts s) t =
     (if t \<in> set ts then (ClusterTopics s t)(GetId s client := None) else ClusterTopics s t)"
proof (induction ts arbitrary: s)
  case Nil
  then show ?case by simp
next
  case (Cons u ts)
  let ?s = "ClusterTopics_Unsubscribe u (GetId (RemoveTopic client u s) client)
              (RemoveTopic client u s)"
  have g: "GetId ?s = GetId s"
    by (simp add: GetId_def RemoveTopic_def ClusterTopics_Unsubscribe_def fun_eq_iff)
  have c: "ClusterTopics ?s =
      (ClusterTopics s)(u := (ClusterTopics s u)(GetId s client := None))"
    by (simp add: GetId_def RemoveTopic_def ClusterTopics_Unsubscribe_def)
  have "ClusterTopics (ProcessDisconnect_loop client (u # ts) s) t =
          ClusterTopics (ProcessDisconnect_loop client ts ?s) t"
    by (simp add: Let_def)
  also have "\<dots> =
      (if t \<in> set ts then (ClusterTopics ?s t)(GetId ?s client := None) else ClusterTopics ?s t)"
    by (rule Cons.IH)
  also have "\<dots> =
      (if t \<in> set (u # ts) then (ClusterTopics s t)(GetId s client := None)
       else ClusterTopics s t)"
    by (simp only: g c) simp
  finally show ?case .
qed

text \<open>
  Claim C7. \<open>ProcessDisconnect\<close> removes the registry entry under the identity of
  the client and closes the client; every topic of the client's topic set is removed
  from that set, which is empty afterwards, and the client's identity is removed from
  the subscribers of each of these topics in the cluster-subscription registry.
\<close>

theorem ProcessDisconnect_cleanup:
  "Clusters (ProcessDisconnect client s) = (Clusters s)(GetId s client := None) \<and>
   closed (heap (ProcessDisconnect client s) client) \<and>
   Topics (ProcessDisconnect client s) client = [] \<and>
   (\<forall>t. ClusterTopics (ProcessDisconnect client s) t =
          (if t \<in> set (Topics s client)
           then (ClusterTopics s t)(GetId s client := None)
           else ClusterTopics s t))"
  by (simp add: ProcessDisconnect_def Let_def ProcessDisconnect_loop_heap
        ProcessDisconnect_loop_ClusterTopics Topics_def Close_def GetId_def)

theorem ProcessDisconnect_cleanup_witness:
  "Topics example_server 0 = [''a/b'', ''c/d''] \<and>
   Clusters (ProcessDisconnect 0 example_server) ''A'' = None \<and>
   closed (heap (ProcessDisconnect 0 example_server) 0) \<and>
   Topics (ProcessDisconnect 0 example_server) 0 = [] \<and>
   ClusterTopics (ProcessDisconnect 0 example_server) ''a/b'' = [''C'' \<mapsto> 1] \<and>
   ClusterTopics (ProcessDisconnect 0 example_server) ''c/d'' = Map.empty"
proof -
  have t: "Topics example_server 0 = [''a/b'', ''c/d'']"
    by (simp add: example_server_def example_client_def Topics_def)
  have g: "GetId example_server 0 = ''A''"
    by (simp add: example_server_def example_client_def GetId_def)
  have ab: "ClusterTopics example_server ''a/b'' = [''A'' \<mapsto> 0, ''C'' \<mapsto> 1]"
    by (simp add: example_server_def)
  have cd: "ClusterTopics example_server ''c/d'' = [''A'' \<mapsto> 0]"
    by (simp add: example_server_def)
  have m: "[''A'' \<mapsto> 0::nat, ''C'' \<mapsto> 1](''A'' := None) = [''C'' \<mapsto> 1]"
    by (rule ext) simp
  show ?thesis
    using ProcessDisconnect_cleanup [of 0 example_server]
    by (simp add: t g ab cd m)
qed

subsection \<open>Registration of a link\<close>

lemma example_fresh:
  "\<forall>i c. Clusters example_server i = Some c \<longrightarrow> c < next_ref example_server"
  by (simp add: example_server_def)

lemma HandlerServer_register_Connect:
  assumes fresh: "\<forall>i c. Clusters s i = Some c \<longrightarrow> c < next_ref s"
    and rd: "conn_reads conn = Some (Connect cp) # rest"
  shows "HandlerServer_register validate conn s =
     Inr (next_ref s, ClientIdentifier cp,
       s\<lparr>heap := (case Clusters s (ClientIdentifier cp) of
                    None \<Rightarrow> heap s
                  | Some old \<Rightarrow> (heap s)(old := (heap s old)\<lparr>closed := True\<rparr>))
                 (next_ref s :=
                    \<lparr>cid = ClientIdentifier cp, ctyp = TypServer, topics = [], reads = rest,
                     wfail = conn_wfail conn, closed = False,
                     written = [Connack \<lparr>SessionPresent = CleanSession cp, ReturnCode = validate cp\<rparr>],
                     wire = (if conn_wfail conn then []
                             else [Connack \<lparr>SessionPresent = CleanSession cp, ReturnCode = validate cp\<rparr>])\<rparr>),
         next_ref := Suc (next_ref s),
         Clusters := (Clusters s)(ClientIdentifier cp \<mapsto> next_ref s)\<rparr>)"
proof (cases "Clusters s (ClientIdentifier cp)")
  case None
  then show ?thesis
    using rd
    by (simp add: HandlerServer_register_def NewClient_def ReadPacket_def SetId_def
        ProcessConnect_def WritePacket_def Close_def Let_def)
next
  case (Some old)
  then have "old \<noteq> next_ref s" using fresh by fastforce
  then show ?thesis
    using rd Some
    by (simp add: HandlerServer_register_def NewClient_def ReadPacket_def SetId_def
        ProcessConnect_def WritePacket_def Close_def Let_def fun_upd_twist)
qed


lemma HandlerClient_register_ok:
  assumes fresh: "\<forall>i c. Clusters s i = Some c \<longrightarrow> c < next_ref s"
    and w: "\<not> conn_wfail conn"
  shows "HandlerClient_register conn cluster s =
     Inr (next_ref s,
       s\<lparr>heap := (case Clusters s (Name cluster) of
                    None \<Rightarrow> heap s
                  | Some old \<Rightarrow> (heap s)(old := (heap s old)\<lparr>closed := True\<rparr>))
                 (next_ref s :=
                    \<lparr>cid = Name cluster, ctyp = TypClient, topics = [], reads = conn_reads conn,
                     wfail = False, closed = False,
                     written = [Connect \<lparr>ProtocolName = ''MQTT'', ProtocolVersion = 4,
                        CleanSession = True, ClientIdentifier = cfg_ClusterName s,
                        Keepalive = 60\<rparr>],
                     wire = [Connect \<lparr>ProtocolName = ''MQTT'', ProtocolVersion = 4,
                        CleanSession = True, ClientIdentifier = cfg_ClusterName s,
                        Keepalive = 60\<rparr>]\<rparr>),
         next_ref := Suc (next_ref s),
         Clusters := (Clusters s)(Name cluster \<mapsto> next_ref s)\<rparr>)"
proof (cases "Clusters s (Name cluster)")
  case None
  then show ?thesis
    using w
    by (simp add: HandlerClient_register_def NewClient_def SetId_def
        WritePacket_def Close_def Let_def)
next
  case (Some old)
  then have "old \<noteq> next_ref s" using fresh by fastforce
  then show ?thesis
    using w Some
    by (simp add: HandlerClient_register_def NewClient_def SetId_def
        WritePacket_def Close_def Let_def fun_upd_twist)
qed

text \<open>
  Claim C1. Let every client of the registry be an allocated object. When the first
  frame on an accepted connection is a connect frame with identity \<open>I\<close>
  (\<open>HandlerServer\<close>), and when the connect frame could be written on a dialed
  connection to the peer named \<open>I\<close> (\<open>HandlerClient\<close>), the handler registers the new
  link under \<open>I\<close>: after the store the registry maps \<open>I\<close> to the new client and is
  otherwise as before, the new client is the one live link under \<open>I\<close>, and a link that
  the registry held under \<open>I\<close> before is another object and is closed. The store is
  the last step: it is applied to a state in which the registry is still as before and
  the superseded link is closed already.
\<close>

theorem registration_displaces:
  assumes "\<forall>i c. Clusters s i = Some c \<longrightarrow> c < next_ref s"
  shows
   "(conn_reads conn = Some (Connect cp) # rest \<longrightarrow>
      (\<exists>new s'. HandlerServer_register validate conn s = Inr (new, ClientIdentifier cp, s') \<and>
         Clusters s' = (Clusters s)(ClientIdentifier cp \<mapsto> new) \<and>
         {c. Clusters s' (ClientIdentifier cp) = Some c \<and> \<not> closed (heap s' c)} = {new} \<and>
         GetId s' new = ClientIdentifier cp \<and> GetTyp s' new = TypServer \<and>
         (\<forall>old. Clusters s (ClientIdentifier cp) = Some old \<longrightarrow>
            old \<noteq> new \<and> closed (heap s' old)) \<and>
         (\<exists>s5. s' = s5\<lparr>Clusters := (Clusters s5)(ClientIdentifier cp \<mapsto> new)\<rparr> \<and>
            Clusters s5 = Clusters s \<and>
            (\<forall>old. Clusters s (ClientIdentifier cp) = Some old \<longrightarrow> closed (heap s5 old))))) \<and>
    (\<not> conn_wfail conn \<longrightarrow>
      (\<exists>new s'. HandlerClient_register conn cluster s = Inr (new, s') \<and>
         Clusters s' = (Clusters s)(Name cluster \<mapsto> new) \<and>
         {c. Clusters s' (Name cluster) = Some c \<and> \<not> closed (heap s' c)} = {new} \<and>
         GetId s' new = Name cluster \<and> GetTyp s' new = TypClient \<and>
         (\<forall>old. Clusters s (Name cluster) = Some old \<longrightarrow>
            old \<noteq> new \<and> closed (heap s' old)) \<and>
         (\<exists>s5. s' = s5\<lparr>Clusters := (Clusters s5)(Name cluster \<mapsto> new)\<rparr> \<and>
            Clusters s5 = Clusters s \<and>
            (\<forall>old. Clusters s (Name cluster) = Some old \<longrightarrow> closed (heap s5 old)))))"
proof (intro conjI impI)
  assume rd: "conn_reads conn = Some (Connect cp) # rest"
  let ?I = "ClientIdentifier cp"
  let ?new = "next_ref s"
  note eq = HandlerServer_register_Connect [OF assms rd, of validate]
  obtain s' where s': "HandlerServer_register validate conn s = Inr (?new, ?I, s')"
      and cl: "Clusters s' = (Clusters s)(?I \<mapsto> ?new)"
      and hp: "heap s' = (case Clusters s ?I of
                    None \<Rightarrow> heap s
                  | Some old \<Rightarrow> (heap s)(old := (heap s old)\<lparr>closed := True\<rparr>))
                 (?new :=
                    \<lparr>cid = ?I, ctyp = TypServer, topics = [], reads = rest,
                     wfail = conn_wfail conn, closed = False,
                     written = [Connack \<lparr>SessionPresent = CleanSession cp, ReturnCode = validate cp\<rparr>],
                     wire = (if conn_wfail conn then []
                             else [Connack \<lparr>SessionPresent = CleanSession cp, ReturnCode = validate cp\<rparr>])\<rparr>)"
    using eq by simp
  have live: "{c. Clusters s' ?I = Some c \<and> \<not> closed (heap s' c)} = {?new}"
    by (auto simp: cl hp)
  have old: "\<forall>old. Clusters s ?I = Some old \<longrightarrow> old \<noteq> ?new \<and> closed (heap s' old)"
    using assms by (auto simp: hp)
  have ord: "\<exists>s5. s' = s5\<lparr>Clusters := (Clusters s5)(?I \<mapsto> ?new)\<rparr> \<and>
            Clusters s5 = Clusters s \<and>
            (\<forall>old. Clusters s ?I = Some old \<longrightarrow> closed (heap s5 old))"
    using old cl by (intro exI [of _ "s'\<lparr>Clusters := Clusters s\<rparr>"]) simp
  show "\<exists>new s'. HandlerServer_register validate conn s = Inr (new, ?I, s') \<and>
         Clusters s' = (Clusters s)(?I \<mapsto> new) \<and>
         {c. Clusters s' ?I = Some c \<and> \<not> closed (heap s' c)} = {new} \<and>
         GetId s' new = ?I \<and> GetTyp s' new = TypServer \<and>
         (\<forall>old. Clusters s ?I = Some old \<longrightarrow> old \<noteq> new \<and> closed (heap s' old)) \<and>
         (\<exists>s5. s' = s5\<lparr>Clusters := (Clusters s5)(?I \<mapsto> new)\<rparr> \<and>
            Clusters s5 = Clusters s \<and>
            (\<forall>old. Clusters s ?I = Some old \<longrightarrow> closed (heap s5 old)))"
    using s' cl live old ord by (intro exI [of _ ?new] exI [of _ s']) (simp add: GetId_def GetTyp_def hp)
next
  assume w: "\<not> conn_wfail conn"
  let ?I = "Name cluster"
  let ?new = "next_ref s"
  note eq = HandlerClient_register_ok [OF assms w, of cluster]
  obtain s' where s': "HandlerClient_register conn cluster s = Inr (?new, s')"
      and cl: "Clusters s' = (Clusters s)(?I \<mapsto> ?new)"
      and hp: "heap s' = (case Clusters s ?I of
                    None \<Rightarrow> heap s
                  | Some old \<Rightarrow> (heap s)(old := (heap s old)\<lparr>closed := True\<rparr>))
                 (?new :=
                    \<lparr>cid = Name cluster, ctyp = TypClient, topics = [], reads = conn_reads conn,
                     wfail = False, closed = False,
                     written = [Connect \<lparr>ProtocolName = ''MQTT'', ProtocolVersion = 4,
                        CleanSession = True, ClientIdentifier = cfg_ClusterName s,
                        Keepalive = 60\<rparr>],
                     wire = [Connect \<lparr>ProtocolName = ''MQTT'', ProtocolVersion = 4,
                        CleanSession = True, ClientIdentifier = cfg_ClusterName s,
                        Keepalive = 60\<rparr>]\<rparr>)"
    using eq by simp
  have live: "{c. Clusters s' ?I = Some c \<and> \<not> closed (heap s' c)} = {?new}"
    by (auto simp: cl hp)
  have old: "\<forall>old. Clusters s ?I = Some old \<longrightarrow> old \<noteq> ?new \<and> closed (heap s' old)"
    using assms by (auto simp: hp)
  have ord: "\<exists>s5. s' = s5\<lparr>Clusters := (Clusters s5)(?I \<mapsto> ?new)\<rparr> \<and>
            Clusters s5 = Clusters s \<and>
            (\<forall>old. Clusters s ?I = Some old \<longrightarrow> closed (heap s5 old))"
    using old cl by (intro exI [of _ "s'\<lparr>Clusters := Clusters s\<rparr>"]) simp
  show "\<exists>new s'. HandlerClient_register conn cluster s = Inr (new, s') \<and>
         Clusters s' = (Clusters s)(?I \<mapsto> new) \<and>
         {c. Clusters s' ?I = Some c \<and> \<not> closed (heap s' c)} = {new} \<and>
         GetId s' new = ?I \<and> GetTyp s' new = TypClient \<and>
         (\<forall>old. Clusters s ?I = Some old \<longrightarrow> old \<noteq> new \<and> closed (heap s' old)) \<and>
         (\<exists>s5. s' = s5\<lparr>Clusters := (Clusters s5)(?I \<mapsto> new)\<rparr> \<and>
            Clusters s5 = Clusters s \<and>
            (\<forall>old. Clusters s ?I = Some old \<longrightarrow> closed (heap s5 old)))"
    using s' cl live old ord by (intro exI [of _ ?new] exI [of _ s']) (simp add: GetId_def GetTyp_def hp)
qed

theorem registration_displaces_witness:
  "(\<exists>new s'. HandlerServer_register example_validate example_conn example_server = Inr (new, ''A'', s') \<and>
      Clusters example_server ''A'' = Some 0 \<and>
      Clusters s' ''A'' = Some new \<and> new \<noteq> 0 \<and>
      \<not> closed (heap s' new) \<and> closed (heap s' 0)) \<and>
   (\<exists>new s'. HandlerClient_register example_conn \<lparr>Name = ''C'', Host = ''10.0.0.6:1883''\<rparr>
                 example_server = Inr (new, s') \<and>
      Clusters example_server ''C'' = Some 1 \<and>
      Clusters s' ''C'' = Some new \<and> new \<noteq> 1 \<and>
      \<not> closed (heap s' new) \<and> closed (heap s' 1))"
proof -
  have rd: "conn_reads example_conn = Some (Connect example_connect) # [Some Pingreq]"
    by (simp add: example_conn_def)
  have w: "\<not> conn_wfail example_conn" by (simp add: example_conn_def)
  have a: "Clusters example_server ''A'' = Some 0" by (simp add: example_server_def)
  have c: "Clusters example_server ''C'' = Some 1" by (simp add: example_server_def)
  have i: "ClientIdentifier example_connect = ''A''" by (simp add: example_connect_def)
  note th = registration_displaces [OF example_fresh, of example_conn example_connect
      "[Some Pingreq]" example_validate "\<lparr>Name = ''C'', Host = ''10.0.0.6:1883''\<rparr>"]
  have 1: "\<exists>new s'. HandlerServer_register example_validate example_conn example_server = Inr (new, ''A'', s') \<and>
      Clusters example_server ''A'' = Some 0 \<and>
      Clusters s' ''A'' = Some new \<and> new \<noteq> 0 \<and>
      \<not> closed (heap s' new) \<and> closed (heap s' 0)"
    using th [THEN conjunct1] rd a i by fastforce
  have 2: "\<exists>new s'. HandlerClient_register example_conn \<lparr>Name = ''C'', Host = ''10.0.0.6:1883''\<rparr>
                 example_server = Inr (new, s') \<and>
      Clusters example_server ''C'' = Some 1 \<and>
      Clusters s' ''C'' = Some new \<and> new \<noteq> 1 \<and>
      \<not> closed (heap s' new) \<and> closed (heap s' 1)"
    using th [THEN conjunct2] w c by fastforce
  show ?thesis using 1 2 by blast
qed

text \<open>
  Claim C9. \<open>ProcessDisconnect\<close> deletes the registry entry under the identity of
  the disconnecting client whichever client the entry holds. When the entry under the
  identity of the client \<open>old\<close> holds another client \<open>new\<close> that is open, the cleanup
  for \<open>old\<close> removes the entry and leaves \<open>new\<close> untouched, hence open. In particular,
  after \<open>HandlerServer\<close> has registered a new link in the place of \<open>old\<close>, the cleanup
  for \<open>old\<close> removes the registration of the new link, which stays open.
\<close>

theorem ProcessDisconnect_displaced:
  "(GetId s old = i \<and> Clusters s i = Some new \<and> new \<noteq> old \<and> \<not> closed (heap s new) \<longrightarrow>
      Clusters (ProcessDisconnect old s) i = None \<and>
      \<not> closed (heap (ProcessDisconnect old s) new) \<and>
      heap (ProcessDisconnect old s) new = heap s new) \<and>
   ((\<forall>j c. Clusters s j = Some c \<longrightarrow> c < next_ref s) \<and>
    conn_reads conn = Some (Connect cp) # rest \<and>
    Clusters s (ClientIdentifier cp) = Some old \<and> GetId s old = ClientIdentifier cp \<longrightarrow>
      (\<exists>new s'. HandlerServer_register validate conn s = Inr (new, ClientIdentifier cp, s') \<and>
         Clusters s' (ClientIdentifier cp) = Some new \<and>
         Clusters (ProcessDisconnect old s') (ClientIdentifier cp) = None \<and>
         \<not> closed (heap (ProcessDisconnect old s') new)))"
proof -
  have 1: "Clusters (ProcessDisconnect old s) i = None \<and>
      \<not> closed (heap (ProcessDisconnect old s) new) \<and>
      heap (ProcessDisconnect old s) new = heap s new"
    if "GetId s old = i \<and> Clusters s i = Some new \<and> new \<noteq> old \<and> \<not> closed (heap s new)"
    using that
    by (simp add: ProcessDisconnect_def Let_def ProcessDisconnect_loop_heap Close_def)
  have 2: "\<exists>new s'. HandlerServer_register validate conn s = Inr (new, ClientIdentifier cp, s') \<and>
         Clusters s' (ClientIdentifier cp) = Some new \<and>
         Clusters (ProcessDisconnect old s') (ClientIdentifier cp) = None \<and>
         \<not> closed (heap (ProcessDisconnect old s') new)"
    if a: "(\<forall>j c. Clusters s j = Some c \<longrightarrow> c < next_ref s) \<and>
      conn_reads conn = Some (Connect cp) # rest \<and>
      Clusters s (ClientIdentifier cp) = Some old \<and> GetId s old = ClientIdentifier cp"
  proof -
    let ?I = "ClientIdentifier cp"
    let ?new = "next_ref s"
    from a have fresh: "\<forall>j c. Clusters s j = Some c \<longrightarrow> c < next_ref s"
      and rd: "conn_reads conn = Some (Connect cp) # rest"
      and old: "Clusters s ?I = Some old" and id: "GetId s old = ?I"
      by blast+
    have ne: "old \<noteq> ?new" using fresh old by fastforce
    obtain s' where s': "HandlerServer_register validate conn s = Inr (?new, ?I, s')"
        and cl: "Clusters s' = (Clusters s)(?I \<mapsto> ?new)"
        and hn: "\<not> closed (heap s' ?new)"
        and ho: "cid (heap s' old) = cid (heap s old)"
      using HandlerServer_register_Connect [OF fresh rd, of validate] old ne by simp
    have g: "GetId s' old = ?I" using ho id by (simp add: GetId_def)
    have "Clusters (ProcessDisconnect old s') ?I = None \<and>
          \<not> closed (heap (ProcessDisconnect old s') ?new)"
      using g cl hn ne
      by (simp add: ProcessDisconnect_def Let_def ProcessDisconnect_loop_heap Close_def)
    then show ?thesis
      using s' cl by (intro exI [of _ ?new] exI [of _ s']) simp
  qed
  show ?thesis using 1 2 by blast
qed

theorem ProcessDisconnect_displaced_witness:
  "GetId example_server 5 = ''A'' \<and> Clusters example_server ''A'' = Some 0 \<and>
   \<not> closed (heap example_server 0) \<and>
   Clusters (ProcessDisconnect 5 example_server) ''A'' = None \<and>
   \<not> closed (heap (ProcessDisconnect 5 example_server) 0) \<and>
   (\<exists>new s'. HandlerServer_register example_validate example_conn example_server = Inr (new, ''A'', s') \<and>
         Clusters s' ''A'' = Some new \<and>
         Clusters (ProcessDisconnect 0 s') ''A'' = None \<and>
         \<not> closed (heap (ProcessDisconnect 0 s') new))"
proof -
  have g: "GetId example_server 5 = ''A''"
    by (simp add: example_server_def example_client_def GetId_def)
  have g0: "GetId example_server 0 = ''A''"
    by (simp add: example_server_def example_client_def GetId_def)
  have a: "Clusters example_server ''A'' = Some 0" by (simp add: example_server_def)
  have o: "\<not> closed (heap example_server 0)"
    by (simp add: example_server_def example_client_def)
  have rd: "conn_reads example_conn = Some (Connect example_connect) # [Some Pingreq]"
    by (simp add: example_conn_def)
  have i: "ClientIdentifier example_connect = ''A''" by (simp add: example_connect_def)
  have 1: "Clusters (ProcessDisconnect 5 example_server) ''A'' = None \<and>
      \<not> closed (heap (ProcessDisconnect 5 example_server) 0)"
    using g a o
      ProcessDisconnect_displaced [of example_server 5 "''A''" 0, THEN conjunct1]
    by simp
  have 2: "\<exists>new s'. HandlerServer_register example_validate example_conn example_server = Inr (new, ''A'', s') \<and>
         Clusters s' ''A'' = Some new \<and>
         Clusters (ProcessDisconnect 0 s') ''A'' = None \<and>
         \<not> closed (heap (ProcessDisconnect 0 s') new)"
    using example_fresh rd a g0
      ProcessDisconnect_displaced [of example_server 0 _ _ example_conn example_connect
        "[Some Pingreq]" example_validate, THEN conjunct2]
    unfolding i by blast
  show ?thesis using g a o 1 2 by blast
qed

text \<open>
  Claim C4, as the code has it. When the first frame read on an accepted connection
  is not a connect frame, \<open>HandlerServer\<close> returns at once and registers nothing: the
  state is as before but for the new client object, so the registry is unchanged;
  the handler does not close the connection, whose client is left open.
\<close>

theorem HandlerServer_not_connect:
  "conn_reads conn = Some p # rest \<and> (\<forall>cp. p \<noteq> Connect cp) \<longrightarrow>
     HandlerServer validate ReadLoop sched conn s =
       Inr (s\<lparr>heap := (heap s)(next_ref s :=
                \<lparr>cid = [], ctyp = TypServer, topics = [], reads = rest,
                 wfail = conn_wfail conn, closed = False, written = [], wire = []\<rparr>),
              next_ref := Suc (next_ref s)\<rparr>) \<and>
     Clusters (projr (HandlerServer validate ReadLoop sched conn s)) = Clusters s \<and>
     \<not> closed (heap (projr (HandlerServer validate ReadLoop sched conn s)) (next_ref s))"
proof
  assume a: "conn_reads conn = Some p # rest \<and> (\<forall>cp. p \<noteq> Connect cp)"
  then have "HandlerServer_register validate conn s =
       Inl (s\<lparr>heap := (heap s)(next_ref s :=
                \<lparr>cid = [], ctyp = TypServer, topics = [], reads = rest,
                 wfail = conn_wfail conn, closed = False, written = [], wire = []\<rparr>),
              next_ref := Suc (next_ref s)\<rparr>)"
    by (cases p) (simp_all add: HandlerServer_register_def NewClient_def ReadPacket_def Let_def)
  then show "HandlerServer validate ReadLoop sched conn s =
       Inr (s\<lparr>heap := (heap s)(next_ref s :=
                \<lparr>cid = [], ctyp = TypServer, topics = [], reads = rest,
                 wfail = conn_wfail conn, closed = False, written = [], wire = []\<rparr>),
              next_ref := Suc (next_ref s)\<rparr>) \<and>
     Clusters (projr (HandlerServer validate ReadLoop sched conn s)) = Clusters s \<and>
     \<not> closed (heap (projr (HandlerServer validate ReadLoop sched conn s)) (next_ref s))"
    by (simp add: HandlerServer_def)
qed

theorem HandlerServer_not_connect_witness:
  "Clusters (projr (HandlerServer example_validate example_ReadLoop [0, 1]
      \<lparr>conn_reads = [Some Pingreq, Some Disconnect], conn_wfail = False\<rparr> example_server))
     = Clusters example_server"
  using HandlerServer_not_connect [of "\<lparr>conn_reads = [Some Pingreq, Some Disconnect], conn_wfail = False\<rparr>"
      Pingreq "[Some Disconnect]" example_validate example_ReadLoop "[0, 1]" example_server]
  by simp

text \<open>
  The claim as stated fails: on a connection whose first frame is a ping request the
  handler returns with the registry unchanged and the connection not closed.
\<close>

theorem HandlerServer_not_connect_counterexample:
  "\<not> isl (HandlerServer example_validate example_ReadLoop [0, 1]
            \<lparr>conn_reads = [Some Pingreq], conn_wfail = False\<rparr> example_server) \<and>
   Clusters (projr (HandlerServer example_validate example_ReadLoop [0, 1]
            \<lparr>conn_reads = [Some Pingreq], conn_wfail = False\<rparr> example_server))
     = Clusters example_server \<and>
   \<not> closed (heap (projr (HandlerServer example_validate example_ReadLoop [0, 1]
            \<lparr>conn_reads = [Some Pingreq], conn_wfail = False\<rparr> example_server))
          (next_ref example_server))"
  by (simp add: HandlerServer_def HandlerServer_register_def NewClient_def ReadPacket_def Let_def)

subsection \<open>The health check\<close>

lemma CheckHealthy_loop_Clusters [simp]:
  "Clusters (CheckHealthy_loop cs s) = Clusters s"
  by (induction cs arbitrary: s) (simp_all add: Let_def WritePacket_snd split: option.splits)

lemma GetTyp_WritePacket [simp]: "GetTyp (snd (WritePacket c p s)) = GetTyp s"
  by (rule ext) (simp add: GetTyp_def WritePacket_snd)

lemma GetTyp_spawned_update [simp]: "GetTyp (s\<lparr>spawned := x\<rparr>) = GetTyp s"
  by (rule ext) (simp add: GetTyp_def)

lemma Clusters_WritePacket [simp]: "Clusters (snd (WritePacket c p s)) = Clusters s"
  by (simp add: WritePacket_snd)

lemma spawned_WritePacket [simp]: "spawned (snd (WritePacket c p s)) = spawned s"
  by (simp add: WritePacket_snd)

lemma written_WritePacket:
  "written (heap (snd (WritePacket c p s)) r) = written (heap s r) @ (if r = c then [p] else [])"
  by (simp add: WritePacket_snd)

lemma CheckHealthy_loop_spawned:
  "spawned (CheckHealthy_loop cs s) =
     spawned s @ filter (\<lambda>c. Clusters s (TrimSpace (Name c)) = None) cs"
  by (induction cs arbitrary: s) (simp_all add: Let_def split: option.splits)

lemma CheckHealthy_loop_written:
  "written (heap (CheckHealthy_loop cs s) r) =
     written (heap s r) @
     replicate (length (filter (\<lambda>c. Clusters s (TrimSpace (Name c)) = Some r \<and>
                                      GetTyp s r = TypClient) cs)) Pingreq"
proof (induction cs arbitrary: s)
  case Nil
  then show ?case by simp
next
  case (Cons c cs)
  show ?case
  proof (cases "Clusters s (TrimSpace (Name c))")
    case None
    then show ?thesis
      using Cons.IH [of "s\<lparr>spawned := spawned s @ [c]\<rparr>"] by simp
  next
    case (Some exist)
    show ?thesis
    proof (cases "GetTyp s exist = TypClient")
      case True
      then show ?thesis
        using Some Cons.IH [of "snd (WritePacket exist Pingreq s)"]
        by (auto simp add: written_WritePacket replicate_append_same)
    next
      case False
      then show ?thesis
        using Some Cons.IH [of s] by auto
    qed
  qed
qed

lemma example_trim:
  "TrimSpace ''A'' = ''A''" "TrimSpace '' B '' = ''B''" "TrimSpace ''C'' = ''C''"
  by code_simp+

text \<open>
  Claim C3. One pass of \<open>CheckHealthy\<close> over the configured peers starts one
  \<open>StartClient\<close> (a dial attempt) for every configured peer whose trimmed name has no
  registry entry, in the order of the configuration, and no other. On every link it
  writes one ping request for each configured peer whose trimmed name the registry
  maps to that link, when the role of the link is \<open>TypClient\<close> (dialed), and nothing
  else; a configured peer whose link has the role \<open>TypServer\<close> (accepted) causes
  neither a write nor a dial. The registry is as before.
\<close>

theorem CheckHealthy_pass:
  "spawned (CheckHealthy s) =
     spawned s @ filter (\<lambda>c. Clusters s (TrimSpace (Name c)) = None) (cfg_Clusters s) \<and>
   (\<forall>r. written (heap (CheckHealthy s) r) =
      written (heap s r) @
      replicate (length (filter (\<lambda>c. Clusters s (TrimSpace (Name c)) = Some r \<and>
                                       GetTyp s r = TypClient) (cfg_Clusters s))) Pingreq) \<and>
   Clusters (CheckHealthy s) = Clusters s"
  by (simp add: CheckHealthy_def CheckHealthy_loop_spawned CheckHealthy_loop_written)

theorem CheckHealthy_pass_witness:
  "spawned (CheckHealthy example_server) = [\<lparr>Name = '' B '', Host = ''10.0.0.5:1883''\<rparr>] \<and>
   GetTyp example_server 0 = TypClient \<and>
   written (heap (CheckHealthy example_server) 0) = [Pingreq] \<and>
   GetTyp example_server 1 = TypServer \<and>
   written (heap (CheckHealthy example_server) 1) = []"
proof -
  have cfg: "cfg_Clusters example_server =
      [\<lparr>Name = ''A'', Host = ''10.0.0.4:1883''\<rparr>,
       \<lparr>Name = '' B '', Host = ''10.0.0.5:1883''\<rparr>,
       \<lparr>Name = ''C'', Host = ''10.0.0.6:1883''\<rparr>]"
    by (simp add: example_server_def)
  have reg: "Clusters example_server ''A'' = Some 0" "Clusters example_server ''B'' = None"
      "Clusters example_server ''C'' = Some 1"
    by (simp_all add: example_server_def)
  have role: "GetTyp example_server 0 = TypClient" "GetTyp example_server 1 = TypServer"
    by (simp_all add: example_server_def example_client_def GetTyp_def)
  have init: "spawned example_server = []" "written (heap example_server 0) = []"
      "written (heap example_server 1) = []"
    by (simp_all add: example_server_def example_client_def)
  note th = CheckHealthy_pass [of example_server]
  have sp: "spawned (CheckHealthy example_server) = [\<lparr>Name = '' B '', Host = ''10.0.0.5:1883''\<rparr>]"
    using th [THEN conjunct1] reg init by (simp add: cfg example_trim)
  have w0: "written (heap (CheckHealthy example_server) 0) = [Pingreq]"
    using th [THEN conjunct2, THEN conjunct1, rule_format, of 0] reg role init
    by (simp add: cfg example_trim)
  have w1: "written (heap (CheckHealthy example_server) 1) = []"
    using th [THEN conjunct2, THEN conjunct1, rule_format, of 1] reg role init
    by (simp add: cfg example_trim)
  show ?thesis
    using sp w0 w1 role by simp
qed

subsection \<open>Topic synchronisation\<close>














































end
